theory Spec2Isabelle
  imports Complex_Main "HOL-Library.Multiset"
begin

text \<open>
  The data consistency and session lifecycle engine of the Veridian workout tracker:
  the merge of a local and a remote dataset (\<^verbatim>\<open>mergeData\<close> of the Settings
  component), the handlers of \<^verbatim>\<open>App.tsx\<close> that start, change, commit and edit
  the active session, the session timeout, and the password reset of the offline
  profiles.
\<close>

section \<open>Entity model (types.ts)\<close>

text \<open>
  The interfaces of \<^verbatim>\<open>types.ts\<close> as records. Field names carry a prefix for
  their interface, since several interfaces share the names \<^verbatim>\<open>id\<close>,
  \<^verbatim>\<open>name\<close>, \<^verbatim>\<open>timestamp\<close> and \<^verbatim>\<open>exercises\<close>.
  A JavaScript \<^verbatim>\<open>number\<close> that counts something is an \<open>int\<close>, one that
  measures something is a \<open>rat\<close>. The reps and the weight of an exercise row are
  what the logger parsed from its input fields, \<^verbatim>\<open>Math.max(0, parseInt(v))\<close> and
  \<^verbatim>\<open>Math.max(0, parseFloat(v))\<close>, and that is \<^verbatim>\<open>NaN\<close> for a field left
  empty: they are a number or \<^verbatim>\<open>NaN\<close>. The other numbers of the model are
  read with a guard (\<^verbatim>\<open>parseInt(v) || 0\<close>) or computed from the clock. The
  infinities are left out throughout.
  An optional field \<^verbatim>\<open>f?: T\<close> is a \<open>T option\<close>.
  A \<^verbatim>\<open>timestamp\<close> is stored by the program as an ISO 8601 string and is only
  ever read through \<^verbatim>\<open>new Date(timestamp).getTime()\<close>; the model keeps that
  value, the milliseconds since the epoch, as an \<open>int\<close>.
\<close>

datatype WeightUnit = kg | lbs

datatype JSNumber = Num rat | NaN

record Exercise =
  ex_id :: string
  ex_name :: string
  ex_sets :: int
  ex_reps :: JSNumber
  ex_weight :: JSNumber
  ex_unit :: WeightUnit

record WorkoutSession =
  ws_id :: string
  ws_timestamp :: int
  ws_name :: "string option"
  ws_warmup :: bool
  ws_equipment :: string
  ws_notes :: string
  ws_exercises :: "Exercise list"
  ws_durationMinutes :: "int option"

record RoutineExercise =
  re_name :: string
  re_sets :: int
  re_reps :: int

record WorkoutRoutine =
  wr_id :: string
  wr_name :: string
  wr_exercises :: "RoutineExercise list"

record HealthStat =
  hs_id :: string
  hs_timestamp :: int
  hs_bodyweight :: "rat option"
  hs_bodyweightUnit :: "WeightUnit option"
  hs_bodyFatPercentage :: "rat option"
  hs_sleepHours :: "rat option"
  hs_waterIntakeLiters :: "rat option"
  hs_restingHeartRate :: "rat option"

record AppData =
  sessions :: "WorkoutSession list"
  healthStats :: "HealthStat list"
  routines :: "WorkoutRoutine list"

record DefaultSettings =
  ds_defaultWorkout :: string
  ds_defaultReps :: int
  ds_defaultWeight :: rat
  ds_defaultUnit :: WeightUnit
  ds_sessionTimeout :: int

record UserProfile =
  up_id :: string
  up_name :: string
  up_passwordHash :: string
  up_securityCodeHash :: "string option"
  up_appData :: AppData
  up_settings :: DefaultSettings

text \<open>The invariant of the data model: ids are unique within each list of a dataset.\<close>

definition unique_ids :: "AppData \<Rightarrow> bool" where
  "unique_ids d \<longleftrightarrow>
     distinct (map ws_id (sessions d)) \<and>
     distinct (map hs_id (healthStats d)) \<and>
     distinct (map wr_id (routines d))"

section \<open>Reconciliation: \<^verbatim>\<open>mergeData\<close> (Settings component)\<close>

text \<open>
  A JavaScript \<^verbatim>\<open>Map\<close> as the list of its entries in insertion order.
  \<^verbatim>\<open>map.set(k, v)\<close> overwrites the value of a key that is present and leaves the
  entry where it was; a new key goes to the end.
\<close>

fun Map_set :: "('k \<times> 'v) list \<Rightarrow> 'k \<Rightarrow> 'v \<Rightarrow> ('k \<times> 'v) list" where
  "Map_set [] k v = [(k, v)]"
| "Map_set ((k', v') # es) k v =
     (if k' = k then (k', v) # es else (k', v') # Map_set es k v)"

text \<open>\<^verbatim>\<open>new Map(entries)\<close> sets the entries one after the other, from the left.\<close>

definition new_Map :: "('k \<times> 'v) list \<Rightarrow> ('k \<times> 'v) list" where
  "new_Map entries = foldl (\<lambda>m (k, v). Map_set m k v) [] entries"

definition Map_values :: "('k \<times> 'v) list \<Rightarrow> 'v list" where
  "Map_values m = map snd m"

text \<open>
  \<^verbatim>\<open>mergeByKey\<close>: concatenate, de-duplicate through a Map keyed by id, sort with
  the comparator \<^verbatim>\<open>time(b) - time(a)\<close>. \<^verbatim>\<open>Array.prototype.sort\<close> is stable,
  so this is the stable sort on the negated time. The accessors are parameters:
  the source reads \<^verbatim>\<open>item.id\<close> and \<^verbatim>\<open>item.timestamp || 0\<close> of an untyped item.
  Both lists are there (\<^verbatim>\<open>local[key] || []\<close> guards a missing one, which the
  type \<^verbatim>\<open>AppData\<close> excludes).
\<close>

definition mergeByKey ::
  "('a \<Rightarrow> string) \<Rightarrow> ('a \<Rightarrow> int) \<Rightarrow> 'a list \<Rightarrow> 'a list \<Rightarrow> 'a list" where
  "mergeByKey idf tm local remote =
     (let combined = local @ remote;
          m = new_Map (map (\<lambda>item. (idf item, item)) combined)
      in sort_key (\<lambda>item. - tm item) (Map_values m))"

text \<open>A routine has no timestamp: \<^verbatim>\<open>item.timestamp || 0\<close> is 0 for each of them.\<close>

definition mergeData :: "AppData \<Rightarrow> AppData \<Rightarrow> AppData" where
  "mergeData local remote =
     \<lparr> sessions = mergeByKey ws_id ws_timestamp (sessions local) (sessions remote),
       healthStats = mergeByKey hs_id hs_timestamp (healthStats local) (healthStats remote),
       routines = mergeByKey wr_id (\<lambda>_. 0) (routines local) (routines remote) \<rparr>"

text \<open>The last record of a list that carries a given id, if there is one.\<close>

definition last_with :: "('a \<Rightarrow> string) \<Rightarrow> 'a list \<Rightarrow> string \<Rightarrow> 'a option" where
  "last_with idf xs k = map_of (rev (map (\<lambda>item. (idf item, item)) xs)) k"

text \<open>
  Two datasets agree on the ids they share: records of corresponding lists with the
  same id are the same record.
\<close>

definition agree_on_shared_ids :: "AppData \<Rightarrow> AppData \<Rightarrow> bool" where
  "agree_on_shared_ids a b \<longleftrightarrow>
     (\<forall>x\<in>set (sessions a). \<forall>y\<in>set (sessions b). ws_id x = ws_id y \<longrightarrow> x = y) \<and>
     (\<forall>x\<in>set (healthStats a). \<forall>y\<in>set (healthStats b). hs_id x = hs_id y \<longrightarrow> x = y) \<and>
     (\<forall>x\<in>set (routines a). \<forall>y\<in>set (routines b). wr_id x = wr_id y \<longrightarrow> x = y)"

section \<open>JavaScript primitives used by the controller\<close>

text \<open>
  \<^verbatim>\<open>Math.round(x)\<close> is the integer nearest to \<open>x\<close>, a tie going up:
  \<open>\<lfloor>x + 1/2\<rfloor>\<close>.
\<close>

definition Math_round :: "rat \<Rightarrow> int" where
  "Math_round x = \<lfloor>x + 1 / 2\<rfloor>"

text \<open>
  \<^verbatim>\<open>n.toString()\<close> of an integer: its decimal digits, with a minus sign when
  negative. \<^verbatim>\<open>Date.now()\<close> is always an integer.
\<close>

definition digitChar :: "nat \<Rightarrow> char" where
  "digitChar n = ''0123456789'' ! n"

fun natToString :: "nat \<Rightarrow> string" where
  "natToString n =
     (if n < 10 then [digitChar n] else natToString (n div 10) @ [digitChar (n mod 10)])"

declare natToString.simps [simp del]

definition toString :: "int \<Rightarrow> string" where
  "toString i = (if i < 0 then CHR ''-'' # natToString (nat (- i)) else natToString (nat i))"

text \<open>
  Truthiness of a \<^verbatim>\<open>string | null\<close> and of a \<^verbatim>\<open>number | null\<close>:
  \<^verbatim>\<open>null\<close>, the empty string and 0 are falsy.
\<close>

definition truthy_string :: "string option \<Rightarrow> bool" where
  "truthy_string s = (case s of None \<Rightarrow> False | Some v \<Rightarrow> v \<noteq> [])"

definition truthy_number :: "int option \<Rightarrow> bool" where
  "truthy_number n = (case n of None \<Rightarrow> False | Some v \<Rightarrow> v \<noteq> 0)"

text \<open>
  \<^verbatim>\<open>===\<close> on two numbers: \<^verbatim>\<open>NaN\<close> is equal to nothing, itself included.
\<close>

fun strictEquals :: "JSNumber \<Rightarrow> JSNumber \<Rightarrow> bool" where
  "strictEquals (Num a) (Num b) \<longleftrightarrow> a = b"
| "strictEquals _ _ \<longleftrightarrow> False"

text \<open>\<^verbatim>\<open>Array.prototype.findIndex\<close>: the first index that satisfies, or -1.\<close>

fun findIndex :: "('a \<Rightarrow> bool) \<Rightarrow> 'a list \<Rightarrow> int" where
  "findIndex p [] = - 1"
| "findIndex p (x # xs) =
     (if p x then 0 else (let i = findIndex p xs in if i = - 1 then - 1 else i + 1))"

section \<open>The state of the App component\<close>

datatype View =
  view_logger | view_history | view_dashboard | view_ai | view_routines
  | view_settings | view_health

text \<open>
  The \<^verbatim>\<open>useState\<close> and \<^verbatim>\<open>useLocalStorage\<close> variables of \<^verbatim>\<open>App\<close> that the
  session and profile handlers read or write. A handler is a function from the state
  (and the clock reading \<open>now\<close> of \<^verbatim>\<open>Date.now()\<close>) to the state after the
  handler's updates have been applied; handlers run one after the other, each on the
  state the previous one left. Calls to the remote store and to the fitness log change
  nothing in this state and are left out, and so is the effect that reloads
  \<^verbatim>\<open>appData\<close> and \<^verbatim>\<open>settings\<close> when the signed-in user or the active profile
  changes.
\<close>

record AppState =
  profiles :: "UserProfile list"
  activeLocalProfileId :: "string option"
  isSignedIn :: bool
  appData :: AppData
  settings :: DefaultSettings
  activeSession :: "WorkoutSession option"
  lastActivityTime :: "int option"
  editingSessionId :: "string option"
  view :: View

text \<open>\<^verbatim>\<open>DEFAULT_SETTINGS\<close> of \<^verbatim>\<open>constants.ts\<close>.\<close>

definition DEFAULT_SETTINGS :: DefaultSettings where
  "DEFAULT_SETTINGS =
     \<lparr> ds_defaultWorkout = ''Push-ups'', ds_defaultReps = 10, ds_defaultWeight = 0,
       ds_defaultUnit = kg, ds_sessionTimeout = 60 \<rparr>"

text \<open>
  \<^verbatim>\<open>activeProfile\<close> (a memo of the state): the first profile whose id is the
  active local profile id.
\<close>

definition activeProfile :: "AppState \<Rightarrow> UserProfile option" where
  "activeProfile st =
     (if \<not> truthy_string (activeLocalProfileId st) then None
      else find (\<lambda>p. Some (up_id p) = activeLocalProfileId st) (profiles st))"

text \<open>
  \<^verbatim>\<open>updateLocalProfile(updater, profileIdToUpdate?)\<close>: the target is
  \<^verbatim>\<open>profileIdToUpdate || activeLocalProfileId\<close>; nothing happens without a target.
\<close>

definition updateLocalProfile ::
  "(UserProfile \<Rightarrow> UserProfile) \<Rightarrow> string option \<Rightarrow> AppState \<Rightarrow> AppState" where
  "updateLocalProfile updater profileIdToUpdate st =
     (let targetId = (if truthy_string profileIdToUpdate then profileIdToUpdate
                      else activeLocalProfileId st)
      in if \<not> truthy_string targetId then st
         else st\<lparr>profiles := map (\<lambda>p. if Some (up_id p) = targetId then updater p else p)
                                 (profiles st)\<rparr>)"

section \<open>Session lifecycle: \<^verbatim>\<open>finishSession\<close> and the handlers around it\<close>

text \<open>
  The three local constants of \<^verbatim>\<open>finishSession\<close>. The handler reads the clock
  once for the duration and once for the id; both readings are \<open>now\<close>.
\<close>

definition finalSession :: "int \<Rightarrow> WorkoutSession \<Rightarrow> WorkoutSession" where
  "finalSession now a =
     (if ws_id a = ''active''
      then a\<lparr>ws_durationMinutes :=
               Some (Math_round (of_int (now - ws_timestamp a) / 60000))\<rparr>
      else a)"

definition newSessionId :: "int \<Rightarrow> WorkoutSession \<Rightarrow> string" where
  "newSessionId now a =
     (if ws_id (finalSession now a) = ''active'' then toString now
      else ws_id (finalSession now a))"

definition finalSessionWithId :: "int \<Rightarrow> WorkoutSession \<Rightarrow> WorkoutSession" where
  "finalSessionWithId now a = (finalSession now a)\<lparr>ws_id := newSessionId now a\<rparr>"

text \<open>
  \<^verbatim>\<open>updateState\<close>: drop the entries that carry the id of \<^verbatim>\<open>finalSession\<close>, add
  \<^verbatim>\<open>finalSessionWithId\<close> at the end, sort by timestamp, latest first.
\<close>

definition updateState :: "WorkoutSession \<Rightarrow> WorkoutSession \<Rightarrow> AppData \<Rightarrow> AppData" where
  "updateState fs fsWithId currentData =
     (let updatedSessions = filter (\<lambda>s. ws_id s \<noteq> ws_id fs) (sessions currentData);
          newSessions = sort_key (\<lambda>s. - ws_timestamp s) (updatedSessions @ [fsWithId])
      in currentData\<lparr>sessions := newSessions\<rparr>)"

definition finishSession :: "int \<Rightarrow> AppState \<Rightarrow> AppState" where
  "finishSession now st =
     (case activeSession st of
        None \<Rightarrow> st
      | Some a \<Rightarrow>
          if ws_exercises a = []
          then st\<lparr>activeSession := None, editingSessionId := None\<rparr>
          else
            (let fs = finalSession now a;
                 fsWithId = finalSessionWithId now a;
                 st1 = (if truthy_string (activeLocalProfileId st)
                        then updateLocalProfile
                               (\<lambda>profile. profile\<lparr>up_appData :=
                                             updateState fs fsWithId (up_appData profile)\<rparr>)
                               None st
                        else if isSignedIn st
                        then st\<lparr>appData := updateState fs fsWithId (appData st)\<rparr>
                        else st)
             in st1\<lparr>activeSession := None, editingSessionId := None,
                     view := view_history\<rparr>))"

text \<open>
  The dataset that \<^verbatim>\<open>finishSession\<close> writes to: the active local profile's when a
  local profile is active, the in-memory one otherwise.
\<close>

definition currentData :: "AppState \<Rightarrow> AppData" where
  "currentData st =
     (if truthy_string (activeLocalProfileId st)
      then (case activeProfile st of
              Some p \<Rightarrow> up_appData p
            | None \<Rightarrow> \<lparr>sessions = [], healthStats = [], routines = []\<rparr>)
      else appData st)"

text \<open>There is a dataset for \<^verbatim>\<open>finishSession\<close> to write to.\<close>

definition has_dataset :: "AppState \<Rightarrow> bool" where
  "has_dataset st \<longleftrightarrow>
     (if truthy_string (activeLocalProfileId st) then activeProfile st \<noteq> None
      else isSignedIn st)"


text \<open>
  \<^verbatim>\<open>Partial<WorkoutSession>\<close>: each field present or absent; an optional field
  that is present may hold \<^verbatim>\<open>undefined\<close>.
\<close>

record SessionUpdate =
  su_id :: "string option"
  su_timestamp :: "int option"
  su_name :: "string option option"
  su_warmup :: "bool option"
  su_equipment :: "string option"
  su_notes :: "string option"
  su_exercises :: "Exercise list option"
  su_durationMinutes :: "int option option"

text \<open>The spread \<^verbatim>\<open>{ ...prev, ...sessionUpdate }\<close>.\<close>

definition spreadUpdate :: "WorkoutSession \<Rightarrow> SessionUpdate \<Rightarrow> WorkoutSession" where
  "spreadUpdate prev u =
     \<lparr> ws_id = (case su_id u of None \<Rightarrow> ws_id prev | Some v \<Rightarrow> v),
       ws_timestamp = (case su_timestamp u of None \<Rightarrow> ws_timestamp prev | Some v \<Rightarrow> v),
       ws_name = (case su_name u of None \<Rightarrow> ws_name prev | Some v \<Rightarrow> v),
       ws_warmup = (case su_warmup u of None \<Rightarrow> ws_warmup prev | Some v \<Rightarrow> v),
       ws_equipment = (case su_equipment u of None \<Rightarrow> ws_equipment prev | Some v \<Rightarrow> v),
       ws_notes = (case su_notes u of None \<Rightarrow> ws_notes prev | Some v \<Rightarrow> v),
       ws_exercises = (case su_exercises u of None \<Rightarrow> ws_exercises prev | Some v \<Rightarrow> v),
       ws_durationMinutes =
         (case su_durationMinutes u of None \<Rightarrow> ws_durationMinutes prev | Some v \<Rightarrow> v) \<rparr>"

text \<open>The update that sets no field.\<close>

definition noUpdate :: SessionUpdate where
  "noUpdate =
     \<lparr> su_id = None, su_timestamp = None, su_name = None, su_warmup = None,
       su_equipment = None, su_notes = None, su_exercises = None,
       su_durationMinutes = None \<rparr>"

definition updateActiveSession :: "int \<Rightarrow> SessionUpdate \<Rightarrow> AppState \<Rightarrow> AppState" where
  "updateActiveSession now sessionUpdate st =
     (case activeSession st of
        None \<Rightarrow> st
      | Some prev \<Rightarrow>
          st\<lparr>activeSession := Some (spreadUpdate prev sessionUpdate),
             lastActivityTime := Some now\<rparr>)"

definition startSession :: "int \<Rightarrow> WorkoutSession \<Rightarrow> AppState \<Rightarrow> AppState" where
  "startSession now session st =
     (let st1 = (if activeSession st \<noteq> None then finishSession now st else st)
      in st1\<lparr>activeSession := Some session, lastActivityTime := Some now,
              view := view_logger\<rparr>)"

text \<open>
  The test of \<^verbatim>\<open>addExerciseToSession\<close> for "one more set of a row that is
  there": \<^verbatim>\<open>===\<close> on name, weight, unit and reps. A row whose reps or weight
  is \<^verbatim>\<open>NaN\<close> passes it for no exercise.
\<close>

definition sameExercise :: "Exercise \<Rightarrow> Exercise \<Rightarrow> bool" where
  "sameExercise newExercise ex \<longleftrightarrow>
     ex_name ex = ex_name newExercise \<and> strictEquals (ex_weight ex) (ex_weight newExercise) \<and>
     ex_unit ex = ex_unit newExercise \<and> strictEquals (ex_reps ex) (ex_reps newExercise)"

text \<open>
  \<^verbatim>\<open>row.sets += 1\<close> changes a row object, for everyone who holds it. The state
  records what the objects hold, not which objects they are, so the other holders of
  a row object are named by their places in the state: a row of a session of
  \<^verbatim>\<open>appData\<close>, or of a session of the dataset of a profile.
\<close>

datatype RowPlace = AppDataRow nat nat | ProfileRow nat nat nat

definition addSet :: "Exercise \<Rightarrow> Exercise" where
  "addSet row = row\<lparr>ex_sets := ex_sets row + 1\<rparr>"

definition addSetInData :: "nat \<Rightarrow> nat \<Rightarrow> AppData \<Rightarrow> AppData" where
  "addSetInData k j d =
     (if k < length (sessions d) \<and> j < length (ws_exercises (sessions d ! k))
      then d\<lparr>sessions :=
               (sessions d)
                 [k := (sessions d ! k)
                         \<lparr>ws_exercises :=
                            (ws_exercises (sessions d ! k))
                              [j := addSet (ws_exercises (sessions d ! k) ! j)]\<rparr>]\<rparr>
      else d)"

fun addSetAt :: "RowPlace \<Rightarrow> AppState \<Rightarrow> AppState" where
  "addSetAt (AppDataRow k j) st = st\<lparr>appData := addSetInData k j (appData st)\<rparr>"
| "addSetAt (ProfileRow p k j) st =
     (if p < length (profiles st)
      then st\<lparr>profiles :=
                (profiles st)
                  [p := (profiles st ! p)
                          \<lparr>up_appData := addSetInData k j (up_appData (profiles st ! p))\<rparr>]\<rparr>
      else st)"

text \<open>
  \<^verbatim>\<open>addExerciseToSession(exercise)\<close>: the argument has no id (its \<open>ex_id\<close> is
  ignored); the id is the clock reading. With no session active one is started on
  this exercise; otherwise the first row that matches gets \<^verbatim>\<open>sets += 1\<close>, and
  without a match the exercise is added at the end.

  The increment is made in place: \<^verbatim>\<open>updatedExercises\<close> is a new array of the
  same row objects, and \<^verbatim>\<open>updatedExercises[i].sets += 1\<close> changes the object of
  row \<open>i\<close>. A session loaded by \<^verbatim>\<open>editSession\<close> is the stored session object
  itself, so while it is edited its rows are rows of \<^verbatim>\<open>appData.sessions\<close> too,
  and for a local profile rows of the profile's dataset, from which \<^verbatim>\<open>appData\<close>
  was loaded; the rows of a new session are held by nobody else. The argument
  \<open>sharedWith i\<close> names the other places that hold the object of row \<open>i\<close>, and the
  increment is made at each of them, once. No handler puts one row object twice into
  the array of a session, so of the rows of the active session only row \<open>i\<close>
  changes.
\<close>

definition addExerciseToSession ::
  "int \<Rightarrow> Exercise \<Rightarrow> (nat \<Rightarrow> RowPlace list) \<Rightarrow> AppState \<Rightarrow> AppState" where
  "addExerciseToSession now exercise sharedWith st =
     (let newExercise = exercise\<lparr>ex_id := toString now\<rparr>;
          st1 =
            (case activeSession st of
               None \<Rightarrow>
                 startSession now
                   \<lparr> ws_id = ''active'', ws_timestamp = now, ws_name = None,
                     ws_warmup = False, ws_equipment = ''Bodyweight'', ws_notes = [],
                     ws_exercises = [newExercise], ws_durationMinutes = None \<rparr> st
             | Some a \<Rightarrow>
                 (let existingExerciseIndex =
                        findIndex (sameExercise newExercise) (ws_exercises a)
                  in if existingExerciseIndex > - 1
                     then
                       (let i = nat existingExerciseIndex;
                            updatedExercises =
                              (ws_exercises a)[i := addSet (ws_exercises a ! i)];
                            st2 = foldr addSetAt (remdups (sharedWith i)) st
                        in st2\<lparr>activeSession :=
                                 Some (a\<lparr>ws_exercises := updatedExercises\<rparr>)\<rparr>)
                     else
                       st\<lparr>activeSession :=
                            Some (a\<lparr>ws_exercises := ws_exercises a @ [newExercise]\<rparr>)\<rparr>))
      in st1\<lparr>lastActivityTime := Some now\<rparr>)"

text \<open>
  The sharing that \<^verbatim>\<open>editSession\<close> leaves for a cloud user: the session loaded
  is the first of \<^verbatim>\<open>appData.sessions\<close> with the id, and row \<open>i\<close> of the active
  session is row \<open>i\<close> of that one.
\<close>

definition sharedAfterEdit :: "string \<Rightarrow> AppState \<Rightarrow> nat \<Rightarrow> RowPlace list" where
  "sharedAfterEdit sessionId st i =
     (let k = findIndex (\<lambda>s. ws_id s = sessionId) (sessions (appData st))
      in if k > - 1 then [AppDataRow (nat k) i] else [])"

text \<open>
  \<^verbatim>\<open>editSession(sessionId)\<close>: finish what is active, then look the session up in
  the \<^verbatim>\<open>appData\<close> the handler was created with, and load it with the activity
  time cleared.
\<close>

definition editSession :: "int \<Rightarrow> string \<Rightarrow> AppState \<Rightarrow> AppState" where
  "editSession now sessionId st =
     (let st1 = finishSession now st
      in case find (\<lambda>s. ws_id s = sessionId) (sessions (appData st)) of
           None \<Rightarrow> st1
         | Some sessionToEdit \<Rightarrow>
             st1\<lparr>editingSessionId := Some sessionId,
                 activeSession := Some sessionToEdit,
                 lastActivityTime := None,
                 view := view_logger\<rparr>)"

definition cancelActiveSession :: "AppState \<Rightarrow> AppState" where
  "cancelActiveSession st =
     st\<lparr>activeSession := None, editingSessionId := None,
        view := (if view st = view_logger then view_dashboard else view st)\<rparr>"

text \<open>
  The session-timeout effect. It runs after every change of the active session, of
  the last activity time or of the timeout setting, and cancels the timer it set
  before. What it does at clock reading \<open>now\<close>: nothing, \<^verbatim>\<open>finishSession\<close> at
  once, or a timer that calls \<^verbatim>\<open>finishSession\<close> after the remaining time.
\<close>

datatype TimerAction = NoTimer | FinishNow | FinishAfter int

definition sessionTimeoutEffect :: "int \<Rightarrow> AppState \<Rightarrow> TimerAction" where
  "sessionTimeoutEffect now st =
     (if activeSession st \<noteq> None \<and> truthy_number (lastActivityTime st)
         \<and> ds_sessionTimeout (settings st) > 0
      then
        (let timeoutMs = ds_sessionTimeout (settings st) * 60 * 1000;
             timeSinceLastActivity = now - the (lastActivityTime st);
             remainingTime = timeoutMs - timeSinceLastActivity
         in if remainingTime \<le> 0 then FinishNow else FinishAfter remainingTime)
      else NoTimer)"

text \<open>
  The state once the effect that ran at \<open>now\<close> has had its way and nothing else
  happened in between: the timer, if one was set, has fired.
\<close>

definition afterInactivity :: "int \<Rightarrow> AppState \<Rightarrow> AppState" where
  "afterInactivity now st =
     (case sessionTimeoutEffect now st of
        NoTimer \<Rightarrow> st
      | FinishNow \<Rightarrow> finishSession now st
      | FinishAfter remainingTime \<Rightarrow> finishSession (now + remainingTime) st)"

section \<open>Profile store: password reset\<close>



section \<open>Example data\<close>

text \<open>
  Concrete records on which the theorems below are exercised. The two datasets are
  the scenario of the specification: the local copy holds session 100, the remote
  copy holds session 100 with other notes, and session 200.
\<close>

definition ex_pushups :: Exercise where
  "ex_pushups = \<lparr> ex_id = ''1'', ex_name = ''Push-ups'', ex_sets = 3, ex_reps = Num 10,
                   ex_weight = Num 0, ex_unit = kg \<rparr>"

text \<open>
  What the logger passes to \<^verbatim>\<open>addExerciseToSession\<close> for push-ups without
  weight: one set, and the reps of its Reps field.
\<close>

definition ex_logged :: "JSNumber \<Rightarrow> Exercise" where
  "ex_logged r = \<lparr> ex_id = [], ex_name = ''Push-ups'', ex_sets = 1, ex_reps = r,
                    ex_weight = Num 0, ex_unit = kg \<rparr>"

definition ex_session :: "string \<Rightarrow> int \<Rightarrow> string \<Rightarrow> WorkoutSession" where
  "ex_session i t n =
     \<lparr> ws_id = i, ws_timestamp = t, ws_name = None, ws_warmup = False,
       ws_equipment = ''Bodyweight'', ws_notes = n, ws_exercises = [ex_pushups],
       ws_durationMinutes = Some 30 \<rparr>"

definition ex_health :: "string \<Rightarrow> int \<Rightarrow> rat \<Rightarrow> HealthStat" where
  "ex_health i t w =
     \<lparr> hs_id = i, hs_timestamp = t, hs_bodyweight = Some w, hs_bodyweightUnit = Some kg,
       hs_bodyFatPercentage = None, hs_sleepHours = None, hs_waterIntakeLiters = None,
       hs_restingHeartRate = None \<rparr>"

definition ex_routine :: "string \<Rightarrow> string \<Rightarrow> WorkoutRoutine" where
  "ex_routine i n =
     \<lparr> wr_id = i, wr_name = n,
       wr_exercises = [\<lparr> re_name = ''Push-ups'', re_sets = 3, re_reps = 10 \<rparr>] \<rparr>"

definition ex_local :: AppData where
  "ex_local =
     \<lparr> sessions = [ex_session ''100'' 1000 ''local''],
       healthStats = [ex_health ''7'' 500 80],
       routines = [ex_routine ''r1'' ''Upper''] \<rparr>"

definition ex_remote :: AppData where
  "ex_remote =
     \<lparr> sessions = [ex_session ''100'' 1000 ''remote'', ex_session ''200'' 2000 ''second''],
       healthStats = [ex_health ''7'' 500 81],
       routines = [ex_routine ''r1'' ''Upper body''] \<rparr>"

text \<open>A third dataset: it shares ids with \<open>ex_local\<close>, with the same content.\<close>

definition ex_other :: AppData where
  "ex_other =
     \<lparr> sessions = [ex_session ''300'' 3000 ''third'', ex_session ''100'' 1000 ''local''],
       healthStats = [ex_health ''8'' 600 79, ex_health ''7'' 500 80],
       routines = [ex_routine ''r2'' ''Legs'', ex_routine ''r1'' ''Upper''] \<rparr>"

text \<open>
  Example states, all of a cloud user: a session being logged or edited over the
  dataset \<open>ex_remote\<close>, one with no exercise yet, and two over a dataset that
  already holds a session whose id is the clock reading 1700000000000.
\<close>

definition ex_cloud_state :: "AppData \<Rightarrow> WorkoutSession option \<Rightarrow> AppState" where
  "ex_cloud_state d a =
     \<lparr> profiles = [], activeLocalProfileId = None, isSignedIn = True, appData = d,
       settings = DEFAULT_SETTINGS, activeSession = a, lastActivityTime = None,
       editingSessionId = None, view = view_logger \<rparr>"

definition ex_new_session :: "int \<Rightarrow> Exercise list \<Rightarrow> WorkoutSession" where
  "ex_new_session t es =
     \<lparr> ws_id = ''active'', ws_timestamp = t, ws_name = None, ws_warmup = False,
       ws_equipment = ''Bodyweight'', ws_notes = [], ws_exercises = es,
       ws_durationMinutes = None \<rparr>"

definition ex_clash_state :: AppState where
  "ex_clash_state =
     ex_cloud_state
       \<lparr> sessions = [ex_session ''1700000000000'' 1699990000000 ''earlier''],
         healthStats = [], routines = [] \<rparr>
       (Some (ex_new_session 1699999000000 [ex_pushups]))"

definition ex_future_state :: AppState where
  "ex_future_state =
     ex_cloud_state
       \<lparr> sessions = [ex_session ''1700000000000'' 1699990000000 ''earlier''],
         healthStats = [], routines = [] \<rparr>
       (Some (ex_new_session 1700000120000 [ex_pushups]))"

definition ex_empty_state :: AppState where
  "ex_empty_state = ex_cloud_state ex_remote (Some (ex_new_session 1699999000000 []))"

definition ex_logging_state :: AppState where
  "ex_logging_state = ex_cloud_state ex_remote (Some (ex_new_session 1699999000000 [ex_pushups]))"

definition ex_editing_state :: AppState where
  "ex_editing_state = ex_cloud_state ex_remote (Some (ex_session ''100'' 1000 ''edited''))"

text \<open>The state of a cloud user with no session active.\<close>

definition ex_idle_state :: AppState where
  "ex_idle_state = ex_cloud_state ex_remote None"





section \<open>Properties of the Map model\<close>

lemma Map_set_keys:
  "map fst (Map_set m k v) = (if k \<in> fst ` set m then map fst m else map fst m @ [k])"
  by (induction m k v rule: Map_set.induct) auto

lemma Map_set_distinct:
  "distinct (map fst m) \<Longrightarrow> distinct (map fst (Map_set m k v))"
  by (simp add: Map_set_keys)

lemma Map_set_map_of: "map_of (Map_set m k v) = (map_of m)(k \<mapsto> v)"
  by (induction m k v rule: Map_set.induct) auto

lemma foldl_Map_set_distinct:
  "distinct (map fst m) \<Longrightarrow>
   distinct (map fst (foldl (\<lambda>m (k, v). Map_set m k v) m es))"
  by (induction es arbitrary: m) (auto simp: Map_set_distinct)

lemma foldl_Map_set_map_of:
  "map_of (foldl (\<lambda>m (k, v). Map_set m k v) m es) = map_of m ++ map_of (rev es)"
proof (induction es arbitrary: m)
  case Nil
  show ?case by simp
next
  case (Cons e es)
  obtain k v where e: "e = (k, v)" by (cases e)
  have "map_of (foldl (\<lambda>m (k, v). Map_set m k v) m (e # es))
        = map_of (Map_set m k v) ++ map_of (rev es)"
    using Cons.IH [of "Map_set m k v"] by (simp add: e)
  also have "\<dots> = map_of m ++ map_of (rev (e # es))"
    by (rule ext) (simp add: Map_set_map_of e map_add_def split: option.splits)
  finally show ?case .
qed

lemma new_Map_distinct: "distinct (map fst (new_Map es))"
  unfolding new_Map_def by (rule foldl_Map_set_distinct) simp

lemma new_Map_map_of: "map_of (new_Map es) = map_of (rev es)"
  unfolding new_Map_def by (simp add: foldl_Map_set_map_of)

lemma new_Map_mem: "(k, v) \<in> set (new_Map es) \<longleftrightarrow> map_of (rev es) k = Some v"
  using new_Map_distinct [of es] new_Map_map_of [of es]
  by (metis map_of_eq_Some_iff)

section \<open>Properties of the merge\<close>

lemma last_with_snoc:
  "last_with idf (xs @ [x]) k = (if idf x = k then Some x else last_with idf xs k)"
  by (simp add: last_with_def)

lemma last_with_Nil: "last_with idf [] k = None"
  by (simp add: last_with_def)

lemma last_with_append:
  "last_with idf (l @ r) k =
     (case last_with idf r k of Some x \<Rightarrow> Some x | None \<Rightarrow> last_with idf l k)"
  by (simp add: last_with_def map_add_def split: option.splits)

lemma last_with_Some: "last_with idf xs k = Some x \<Longrightarrow> x \<in> set xs \<and> idf x = k"
  by (induction xs rule: rev_induct) (auto simp: last_with_snoc last_with_Nil split: if_splits)

lemma last_with_None: "last_with idf xs k = None \<longleftrightarrow> k \<notin> idf ` set xs"
  by (induction xs rule: rev_induct) (auto simp: last_with_snoc last_with_Nil)

lemma last_with_filter:
  "last_with idf xs k =
     (if k \<in> idf ` set xs then Some (last (filter (\<lambda>x. idf x = k) xs)) else None)"
  by (induction xs rule: rev_induct) (auto simp: last_with_snoc last_with_Nil)

lemma last_with_distinct:
  "distinct (map idf xs) \<Longrightarrow> x \<in> set xs \<Longrightarrow> last_with idf xs (idf x) = Some x"
  by (induction xs rule: rev_induct) (auto simp: last_with_snoc last_with_Nil)

lemma new_Map_entry_key:
  assumes "(k, v) \<in> set (new_Map (map (\<lambda>item. (idf item, item)) xs))"
  shows "k = idf v"
proof -
  have "map_of (rev (map (\<lambda>item. (idf item, item)) xs)) k = Some v"
    using assms by (simp add: new_Map_mem)
  then have "(k, v) \<in> set (rev (map (\<lambda>item. (idf item, item)) xs))"
    by (rule map_of_SomeD)
  then show ?thesis by auto
qed

lemma new_Map_values_ids:
  "map idf (Map_values (new_Map (map (\<lambda>item. (idf item, item)) xs)))
   = map fst (new_Map (map (\<lambda>item. (idf item, item)) xs))"
  unfolding Map_values_def using new_Map_entry_key [of _ _ idf xs] by auto

lemma set_mergeByKey:
  "set (mergeByKey idf tm l r) = {x. last_with idf (l @ r) (idf x) = Some x}"
proof -
  let ?es = "map (\<lambda>item. (idf item, item)) (l @ r)"
  have "x \<in> snd ` set (new_Map ?es) \<longleftrightarrow> last_with idf (l @ r) (idf x) = Some x" for x
  proof
    assume "x \<in> snd ` set (new_Map ?es)"
    then obtain k where kx: "(k, x) \<in> set (new_Map ?es)" by auto
    then have "k = idf x" by (rule new_Map_entry_key)
    with kx show "last_with idf (l @ r) (idf x) = Some x"
      by (simp add: new_Map_mem last_with_def)
  next
    assume "last_with idf (l @ r) (idf x) = Some x"
    then have "(idf x, x) \<in> set (new_Map ?es)"
      by (simp add: new_Map_mem last_with_def)
    then show "x \<in> snd ` set (new_Map ?es)" by force
  qed
  then show ?thesis
    by (auto simp: mergeByKey_def Map_values_def Let_def)
qed

lemma distinct_ids_mergeByKey: "distinct (map idf (mergeByKey idf tm l r))"
proof -
  let ?m = "new_Map (map (\<lambda>item. (idf item, item)) (l @ r))"
  have "mset (map idf (mergeByKey idf tm l r)) = mset (map idf (Map_values ?m))"
    by (simp add: mergeByKey_def Let_def)
  then have "distinct (map idf (mergeByKey idf tm l r))
             \<longleftrightarrow> distinct (map idf (Map_values ?m))"
    by (rule mset_eq_imp_distinct_iff)
  moreover have "distinct (map idf (Map_values ?m))"
    by (simp only: new_Map_values_ids new_Map_distinct)
  ultimately show ?thesis by simp
qed

lemma ids_mergeByKey:
  "idf ` set (mergeByKey idf tm l r) = idf ` set l \<union> idf ` set r"
proof
  show "idf ` set (mergeByKey idf tm l r) \<subseteq> idf ` set l \<union> idf ` set r"
  proof
    fix k assume "k \<in> idf ` set (mergeByKey idf tm l r)"
    then obtain x where lx: "last_with idf (l @ r) (idf x) = Some x" and k: "k = idf x"
      by (auto simp: set_mergeByKey)
    from lx have "x \<in> set (l @ r)" by (rule last_with_Some [THEN conjunct1])
    with k show "k \<in> idf ` set l \<union> idf ` set r" by auto
  qed
next
  show "idf ` set l \<union> idf ` set r \<subseteq> idf ` set (mergeByKey idf tm l r)"
  proof
    fix k assume "k \<in> idf ` set l \<union> idf ` set r"
    then have "k \<in> idf ` set (l @ r)" by auto
    then obtain x where x: "last_with idf (l @ r) k = Some x"
      using last_with_None [of idf "l @ r" k] by (cases "last_with idf (l @ r) k") auto
    then have "idf x = k" by (rule last_with_Some [THEN conjunct2])
    with x show "k \<in> idf ` set (mergeByKey idf tm l r)"
      by (auto simp: set_mergeByKey)
  qed
qed

lemma filter_id_singleton:
  "distinct (map f xs) \<Longrightarrow> x \<in> set xs \<Longrightarrow> filter (\<lambda>m. f m = f x) xs = [x]"
  by (induction xs) (auto simp: filter_empty_conv image_iff)

lemma sorted_mergeByKey: "sorted (map (\<lambda>x. - tm x) (mergeByKey idf tm l r))"
  by (simp add: mergeByKey_def Let_def)

lemmas ex_defs =
  ex_pushups_def ex_session_def ex_health_def ex_routine_def ex_local_def ex_remote_def

lemmas merge_defs = mergeData_def mergeByKey_def new_Map_def Map_values_def

lemma last_with_distinct_iff:
  assumes "distinct (map idf ys)"
  shows "last_with idf ys k = Some x \<longleftrightarrow> x \<in> set ys \<and> idf x = k"
proof
  assume "last_with idf ys k = Some x"
  then show "x \<in> set ys \<and> idf x = k" by (rule last_with_Some)
next
  assume "x \<in> set ys \<and> idf x = k"
  then show "last_with idf ys k = Some x"
    using last_with_distinct [OF assms, of x] by auto
qed

lemma last_with_mergeByKey:
  "last_with idf (mergeByKey idf tm l r) k = last_with idf (l @ r) k"
proof -
  have iff: "last_with idf (mergeByKey idf tm l r) k = Some x
             \<longleftrightarrow> last_with idf (l @ r) k = Some x" for x
  proof -
    have "last_with idf (mergeByKey idf tm l r) k = Some x
          \<longleftrightarrow> x \<in> set (mergeByKey idf tm l r) \<and> idf x = k"
      by (rule last_with_distinct_iff) (rule distinct_ids_mergeByKey)
    also have "\<dots> \<longleftrightarrow> last_with idf (l @ r) (idf x) = Some x \<and> idf x = k"
      by (simp add: set_mergeByKey)
    also have "\<dots> \<longleftrightarrow> last_with idf (l @ r) k = Some x"
      using last_with_Some [of idf "l @ r" k x] by auto
    finally show ?thesis .
  qed
  show ?thesis
  proof (cases "last_with idf (l @ r) k")
    case None
    then show ?thesis using iff by (cases "last_with idf (mergeByKey idf tm l r) k") auto
  next
    case (Some x)
    then show ?thesis using iff by simp
  qed
qed

lemma last_with_twice: "last_with idf (xs @ xs) k = last_with idf xs k"
  by (simp add: last_with_append split: option.splits)

lemma distinct_mergeByKey: "distinct (mergeByKey idf tm l r)"
  using distinct_ids_mergeByKey [of idf tm l r] by (simp add: distinct_map)

lemma mergeByKey_remote_wins:
  assumes "k \<in> idf ` set r"
  shows "filter (\<lambda>m. idf m = k) (mergeByKey idf tm l r)
         = [last (filter (\<lambda>x. idf x = k) r)]"
proof -
  let ?x = "last (filter (\<lambda>x. idf x = k) r)"
  have r: "last_with idf r k = Some ?x"
    using assms by (simp add: last_with_filter)
  then have lr: "last_with idf (l @ r) k = Some ?x"
    by (simp add: last_with_append)
  from r have k: "idf ?x = k" by (rule last_with_Some [THEN conjunct2])
  with lr have "?x \<in> set (mergeByKey idf tm l r)"
    by (simp add: set_mergeByKey)
  then have "filter (\<lambda>m. idf m = idf ?x) (mergeByKey idf tm l r) = [?x]"
    using distinct_ids_mergeByKey by (rule filter_id_singleton [rotated])
  then show ?thesis by (simp only: k)
qed

lemma last_with_comm:
  assumes "\<forall>x\<in>set a. \<forall>y\<in>set b. idf x = idf y \<longrightarrow> x = y"
  shows "last_with idf (a @ b) k = last_with idf (b @ a) k"
proof (cases "last_with idf a k")
  case None
  then show ?thesis by (simp add: last_with_append split: option.splits)
next
  case (Some x)
  note a = this
  show ?thesis
  proof (cases "last_with idf b k")
    case None
    with a show ?thesis by (simp add: last_with_append)
  next
    case (Some y)
    from a have "x \<in> set a" "idf x = k" by (simp_all add: last_with_Some [THEN conjunct1] last_with_Some [THEN conjunct2])
    moreover from Some have "y \<in> set b" "idf y = k" by (simp_all add: last_with_Some [THEN conjunct1] last_with_Some [THEN conjunct2])
    ultimately have "x = y" using assms by simp
    with a Some show ?thesis by (simp add: last_with_append)
  qed
qed

lemma mset_mergeByKey_comm:
  assumes "\<forall>x\<in>set a. \<forall>y\<in>set b. idf x = idf y \<longrightarrow> x = y"
  shows "mset (mergeByKey idf tm a b) = mset (mergeByKey idf tm b a)"
proof -
  have "set (mergeByKey idf tm a b) = set (mergeByKey idf tm b a)"
    by (simp add: set_mergeByKey last_with_comm [OF assms])
  then show ?thesis
    by (simp add: set_eq_iff_mset_eq_distinct [symmetric] distinct_mergeByKey)
qed

lemma ids_mergeByKey_comm:
  "idf ` set (mergeByKey idf tm a b) = idf ` set (mergeByKey idf tm b a)"
  by (simp add: ids_mergeByKey Un_commute)

lemma set_mergeByKey_same:
  assumes "distinct (map idf xs)"
  shows "set (mergeByKey idf tm xs xs) = set xs"
proof (rule set_eqI)
  fix x
  show "x \<in> set (mergeByKey idf tm xs xs) \<longleftrightarrow> x \<in> set xs"
  proof
    assume "x \<in> set (mergeByKey idf tm xs xs)"
    then have "last_with idf (xs @ xs) (idf x) = Some x" by (simp add: set_mergeByKey)
    then have "x \<in> set (xs @ xs)" by (rule last_with_Some [THEN conjunct1])
    then show "x \<in> set xs" by simp
  next
    assume "x \<in> set xs"
    with assms have "last_with idf xs (idf x) = Some x" by (rule last_with_distinct)
    then show "x \<in> set (mergeByKey idf tm xs xs)"
      by (simp add: set_mergeByKey last_with_append)
  qed
qed

lemma mset_mergeByKey_same:
  assumes "distinct (map idf xs)"
  shows "mset (mergeByKey idf tm xs xs) = mset xs"
proof -
  from assms have "distinct xs" by (simp add: distinct_map)
  then show ?thesis
    using set_mergeByKey_same [OF assms, of tm]
    by (simp add: set_eq_iff_mset_eq_distinct [symmetric] distinct_mergeByKey)
qed

lemma Map_set_fresh: "k \<notin> fst ` set m \<Longrightarrow> Map_set m k v = m @ [(k, v)]"
  by (induction m k v rule: Map_set.induct) auto

lemma Map_set_same:
  "distinct (map fst m) \<Longrightarrow> (k, v) \<in> set m \<Longrightarrow> Map_set m k v = m"
  by (induction m k v rule: Map_set.induct) (auto simp: image_iff)

lemma foldl_Map_set_fresh:
  "distinct (map fst (m @ es)) \<Longrightarrow> foldl (\<lambda>m (k, v). Map_set m k v) m es = m @ es"
proof (induction es arbitrary: m)
  case Nil
  show ?case by simp
next
  case (Cons e es)
  obtain k v where e: "e = (k, v)" by (cases e)
  from Cons.prems have "k \<notin> fst ` set m" by (auto simp: e)
  then have "Map_set m k v = m @ [(k, v)]" by (rule Map_set_fresh)
  moreover from Cons.prems have "distinct (map fst ((m @ [(k, v)]) @ es))" by (simp add: e)
  ultimately show ?case using Cons.IH [of "m @ [(k, v)]"] by (simp add: e)
qed

lemma foldl_Map_set_same:
  "distinct (map fst m) \<Longrightarrow> set es \<subseteq> set m \<Longrightarrow>
   foldl (\<lambda>m (k, v). Map_set m k v) m es = m"
  by (induction es) (auto simp: Map_set_same)

lemma new_Map_twice:
  assumes "distinct (map fst es)"
  shows "new_Map (es @ es) = es"
proof -
  have "foldl (\<lambda>m (k, v). Map_set m k v) [] es = es"
    using foldl_Map_set_fresh [of "[]" es] assms by simp
  then show ?thesis
    using foldl_Map_set_same [of es es] assms by (simp add: new_Map_def)
qed

lemma mergeByKey_same_sorted:
  assumes "distinct (map idf xs)" and "sorted (map (\<lambda>x. - tm x) xs)"
  shows "mergeByKey idf tm xs xs = xs"
proof -
  have "distinct (map fst (map (\<lambda>item. (idf item, item)) xs))"
    using assms(1) by (simp add: comp_def)
  then have "new_Map (map (\<lambda>item. (idf item, item)) xs @ map (\<lambda>item. (idf item, item)) xs)
             = map (\<lambda>item. (idf item, item)) xs"
    by (rule new_Map_twice)
  then have "Map_values (new_Map (map (\<lambda>item. (idf item, item)) (xs @ xs))) = xs"
    by (simp add: Map_values_def comp_def)
  then show ?thesis
    using assms(2) by (simp add: mergeByKey_def Let_def sort_key_id_if_sorted)
qed

lemma sorted_const: "sorted (map (\<lambda>_. c) xs)"
  by (induction xs) simp_all

section \<open>Properties of the session lifecycle\<close>

lemma Math_round_minutes: "Math_round (of_int d / 60000) = (d + 30000) div 60000"
proof -
  have "(of_int d / 60000 + 1 / 2 :: rat) = of_int (d + 30000) / of_int 60000"
    by (simp add: field_simps)
  then have "Math_round (of_int d / 60000) = \<lfloor>(of_int (d + 30000) / of_int 60000 :: rat)\<rfloor>"
    by (simp only: Math_round_def)
  also have "\<dots> = (d + 30000) div 60000"
    by (rule floor_divide_of_int_eq)
  finally show ?thesis .
qed

lemma digitChar_digit: "n < 10 \<Longrightarrow> digitChar n \<in> set ''0123456789''"
  unfolding digitChar_def by (rule nth_mem) simp

lemma natToString_chars: "set (natToString n) \<subseteq> set ''0123456789''"
proof (induction n rule: natToString.induct)
  case (1 n)
  show ?case
  proof (cases "n < 10")
    case True
    then show ?thesis
      using digitChar_digit [of n] by (subst natToString.simps) simp
  next
    case False
    have "n mod 10 < 10" by simp
    then have "digitChar (n mod 10) \<in> set ''0123456789''" by (rule digitChar_digit)
    with False 1 show ?thesis
      by (subst natToString.simps) simp
  qed
qed

lemma toString_not_active: "toString i \<noteq> ''active''"
proof
  assume "toString i = ''active''"
  then have "CHR ''a'' \<in> set (toString i)" by simp
  then have "CHR ''a'' \<in> set (natToString (nat (- i))) \<or> CHR ''a'' \<in> set (natToString (nat i))"
    by (auto simp: toString_def split: if_splits)
  then show False using natToString_chars by fastforce
qed

lemma truthy_string_simps:
  "truthy_string None = False" "truthy_string (Some v) = (v \<noteq> [])"
  by (simp_all add: truthy_string_def)

lemma find_map_update:
  assumes "\<And>p. P (f p) = P p"
  shows "find P (map (\<lambda>p. if P p then f p else p) ps) = map_option f (find P ps)"
  by (induction ps) (simp_all add: assms)

lemma finishSession_nonempty:
  assumes "activeSession st = Some a" and "ws_exercises a \<noteq> []"
  shows "finishSession now st =
           (if truthy_string (activeLocalProfileId st)
            then updateLocalProfile
                   (\<lambda>profile. profile\<lparr>up_appData :=
                      updateState (finalSession now a) (finalSessionWithId now a)
                        (up_appData profile)\<rparr>) None st
            else if isSignedIn st
            then st\<lparr>appData := updateState (finalSession now a) (finalSessionWithId now a)
                                  (appData st)\<rparr>
            else st)
           \<lparr>activeSession := None, editingSessionId := None, view := view_history\<rparr>"
  using assms by (simp add: finishSession_def Let_def)

lemma currentData_finishSession:
  assumes a: "activeSession st = Some a" and ne: "ws_exercises a \<noteq> []"
    and ds: "has_dataset st"
  shows "currentData (finishSession now st)
         = updateState (finalSession now a) (finalSessionWithId now a) (currentData st)"
proof (cases "truthy_string (activeLocalProfileId st)")
  case False
  with ds have "isSignedIn st" by (simp add: has_dataset_def)
  with False show ?thesis
    by (simp add: finishSession_nonempty [OF a ne] currentData_def)
next
  case True
  let ?f = "\<lambda>profile. profile\<lparr>up_appData :=
              updateState (finalSession now a) (finalSessionWithId now a) (up_appData profile)\<rparr>"
  let ?P = "\<lambda>p. Some (up_id p) = activeLocalProfileId st"
  from True ds obtain p where p: "find ?P (profiles st) = Some p"
    by (auto simp: has_dataset_def activeProfile_def)
  have "find ?P (map (\<lambda>p. if ?P p then ?f p else p) (profiles st))
        = map_option ?f (find ?P (profiles st))"
    by (rule find_map_update) simp
  with True p show ?thesis
    by (simp add: finishSession_nonempty [OF a ne] currentData_def activeProfile_def
        updateLocalProfile_def truthy_string_simps)
qed

lemma filter_fresh:
  "k \<notin> f ` set xs \<Longrightarrow> filter (\<lambda>s. f s \<noteq> k) xs = xs"
  "k \<notin> f ` set xs \<Longrightarrow> filter (\<lambda>s. f s = k) xs = []"
  by (induction xs) auto





lemma updateState_fresh_once:
  assumes "ws_id c \<notin> ws_id ` set (sessions d)"
  shows "filter (\<lambda>s. ws_id s = ws_id c) (sessions (updateState fs c d)) = [c]"
proof -
  have "filter (\<lambda>s. ws_id s = ws_id c) (sessions d) = []"
    using assms by (rule filter_fresh)
  then have "filter (\<lambda>s. ws_id s = ws_id c) (filter (\<lambda>s. ws_id s \<noteq> ws_id fs) (sessions d)) = []"
    by (simp add: filter_empty_conv)
  then show ?thesis
    by (simp add: updateState_def filter_sort)
qed

lemma finalSession_minutes:
  "finalSession now a =
     (if ws_id a = ''active''
      then a\<lparr>ws_durationMinutes := Some ((now - ws_timestamp a + 30000) div 60000)\<rparr>
      else a)"
  unfolding finalSession_def Math_round_minutes by (rule refl)

lemmas state_defs =
  ex_cloud_state_def ex_new_session_def DEFAULT_SETTINGS_def ex_clash_state_def
  ex_future_state_def ex_empty_state_def ex_logging_state_def ex_editing_state_def

lemmas finish_defs =
  finishSession_def finalSession_minutes newSessionId_def finalSessionWithId_def
  updateState_def currentData_def activeProfile_def updateLocalProfile_def
  truthy_string_simps toString_def natToString.simps digitChar_def Let_def

section \<open>Properties of the exercise rows, the timer and the profile store\<close>

lemma strictEquals_NaN [simp]: "strictEquals x NaN = False" "strictEquals NaN x = False"
  by (cases x, simp_all)+

lemma strictEquals_iff: "strictEquals a b \<longleftrightarrow> (\<exists>r. a = Num r \<and> b = Num r)"
  by (cases a; cases b) auto

lemma sameExercise_same:
  "sameExercise e' e \<Longrightarrow> sameExercise e' y = sameExercise e y"
  by (auto simp: sameExercise_def strictEquals_iff)

lemma sameExercise_id [simp]: "sameExercise (e\<lparr>ex_id := i\<rparr>) x = sameExercise e x"
  by (simp add: sameExercise_def)

lemma sameExercise_row_id [simp]: "sameExercise e (x\<lparr>ex_id := i\<rparr>) = sameExercise e x"
  by (simp add: sameExercise_def)

lemma sameExercise_NaN:
  "ex_reps e = NaN \<or> ex_weight e = NaN \<Longrightarrow> \<not> sameExercise e x"
  by (auto simp: sameExercise_def)

lemma sameExercise_addSet [simp]: "sameExercise e (addSet x) = sameExercise e x"
  by (simp add: sameExercise_def addSet_def)

lemma findIndex_none: "\<forall>x\<in>set xs. \<not> p x \<Longrightarrow> findIndex p xs = - 1"
  by (induction xs) simp_all

lemma findIndex_first:
  "\<forall>y\<in>set pre. \<not> p y \<Longrightarrow> p x \<Longrightarrow> findIndex p (pre @ x # post) = int (length pre)"
  by (induction pre) (simp_all add: Let_def)

lemma addSetAt_session [simp]:
  "activeSession (addSetAt p st) = activeSession st"
  "lastActivityTime (addSetAt p st) = lastActivityTime st"
  "editingSessionId (addSetAt p st) = editingSessionId st"
  by (cases p; simp)+

lemma foldr_addSetAt_session [simp]:
  "activeSession (foldr addSetAt ps st) = activeSession st"
  "lastActivityTime (foldr addSetAt ps st) = lastActivityTime st"
  "editingSessionId (foldr addSetAt ps st) = editingSessionId st"
  by (induction ps; simp)+

lemma addExerciseToSession_no_match:
  assumes "activeSession st = Some a"
    and "\<forall>x\<in>set (ws_exercises a). \<not> sameExercise e x"
  shows "addExerciseToSession now e sh st
         = st\<lparr>activeSession :=
                  Some (a\<lparr>ws_exercises := ws_exercises a @ [e\<lparr>ex_id := toString now\<rparr>]\<rparr>),
               lastActivityTime := Some now\<rparr>"
  using assms by (simp add: addExerciseToSession_def Let_def findIndex_none)

lemma addExerciseToSession_match:
  assumes "activeSession st = Some a"
    and "ws_exercises a = pre @ x # post"
    and "\<forall>y\<in>set pre. \<not> sameExercise e y" and "sameExercise e x"
  shows "addExerciseToSession now e sh st
         = (foldr addSetAt (remdups (sh (length pre))) st)
             \<lparr>activeSession := Some (a\<lparr>ws_exercises := pre @ addSet x # post\<rparr>),
              lastActivityTime := Some now\<rparr>"
  using assms by (simp add: addExerciseToSession_def Let_def findIndex_first)

text \<open>
  An exercise whose reps or weight is \<^verbatim>\<open>NaN\<close> is added as a new row, whatever
  rows the session has.
\<close>

lemma addExerciseToSession_NaN_appends:
  assumes "activeSession st = Some a" and "ex_reps e = NaN \<or> ex_weight e = NaN"
  shows "addExerciseToSession now e sh st
         = st\<lparr>activeSession :=
                  Some (a\<lparr>ws_exercises := ws_exercises a @ [e\<lparr>ex_id := toString now\<rparr>]\<rparr>),
               lastActivityTime := Some now\<rparr>"
  using assms(1) by (rule addExerciseToSession_no_match) (simp add: sameExercise_NaN [OF assms(2)])

text \<open>
  Where reps and weight are numbers, two calls that agree in name, weight, unit and
  reps leave one row: a new row with one set more than the first call brought, or
  the first matching row with two sets more. Whatever else holds the rows, this is
  what the active session holds.
\<close>

lemma addExerciseToSession_twice_new_row:
  assumes a: "activeSession st = Some a"
    and nm: "\<forall>x\<in>set (ws_exercises a). \<not> sameExercise e x"
    and same: "sameExercise e' e"
  shows "activeSession (addExerciseToSession now' e' sh' (addExerciseToSession now e sh st))
         = Some (a\<lparr>ws_exercises :=
                    ws_exercises a @ [e\<lparr>ex_id := toString now, ex_sets := ex_sets e + 1\<rparr>]\<rparr>)"
proof -
  let ?row = "e\<lparr>ex_id := toString now\<rparr>"
  let ?a1 = "a\<lparr>ws_exercises := ws_exercises a @ [?row]\<rparr>"
  let ?st1 = "st\<lparr>activeSession := Some ?a1, lastActivityTime := Some now\<rparr>"
  have one: "addExerciseToSession now e sh st = ?st1"
    using a nm by (rule addExerciseToSession_no_match)
  have nm': "\<forall>y\<in>set (ws_exercises a). \<not> sameExercise e' y"
    using nm by (simp add: sameExercise_same [OF same])
  have "addExerciseToSession now' e' sh' ?st1
        = (foldr addSetAt (remdups (sh' (length (ws_exercises a)))) ?st1)
            \<lparr>activeSession := Some (?a1\<lparr>ws_exercises := ws_exercises a @ addSet ?row # []\<rparr>),
             lastActivityTime := Some now'\<rparr>"
    using nm' same by (intro addExerciseToSession_match) simp_all
  then show ?thesis
    by (simp add: one addSet_def)
qed

lemma addExerciseToSession_twice_existing_row:
  assumes a: "activeSession st = Some a"
    and rows: "ws_exercises a = pre @ x # post"
    and pre: "\<forall>y\<in>set pre. \<not> sameExercise e y" and x: "sameExercise e x"
    and same: "sameExercise e' e"
  shows "activeSession (addExerciseToSession now' e' sh' (addExerciseToSession now e sh st))
         = Some (a\<lparr>ws_exercises := pre @ x\<lparr>ex_sets := ex_sets x + 2\<rparr> # post\<rparr>)"
proof -
  let ?a1 = "a\<lparr>ws_exercises := pre @ addSet x # post\<rparr>"
  let ?st1 = "(foldr addSetAt (remdups (sh (length pre))) st)
                \<lparr>activeSession := Some ?a1, lastActivityTime := Some now\<rparr>"
  have one: "addExerciseToSession now e sh st = ?st1"
    using a rows pre x by (rule addExerciseToSession_match)
  have pre': "\<forall>y\<in>set pre. \<not> sameExercise e' y"
    using pre by (simp add: sameExercise_same [OF same])
  have x': "sameExercise e' (addSet x)"
    using x by (simp add: sameExercise_same [OF same])
  have "addExerciseToSession now' e' sh' ?st1
        = (foldr addSetAt (remdups (sh' (length pre))) ?st1)
            \<lparr>activeSession := Some (?a1\<lparr>ws_exercises := pre @ addSet (addSet x) # post\<rparr>),
             lastActivityTime := Some now'\<rparr>"
    using pre' x' by (intro addExerciseToSession_match) simp_all
  then show ?thesis
    by (simp add: one addSet_def)
qed

text \<open>
  The increment reaches the stored session while it is edited, and stays when the
  edit is cancelled: session 100 of the example is edited, one more set of its
  push-ups is logged, the edit is cancelled, and the stored row has 4 sets.
\<close>

lemma edit_add_cancel_changes_dataset:
  "map (\<lambda>s. (ws_id s, map ex_sets (ws_exercises s))) (sessions (appData ex_idle_state))
     = [(''100'', [3]), (''200'', [3])]
   \<and> map (\<lambda>s. (ws_id s, map ex_sets (ws_exercises s)))
        (sessions (appData
          (cancelActiveSession
            (addExerciseToSession 1700000001000 (ex_logged (Num 10))
              (sharedAfterEdit ''100'' ex_idle_state)
              (editSession 1700000000000 ''100'' ex_idle_state)))))
     = [(''100'', [4]), (''200'', [3])]"
  by (simp add: cancelActiveSession_def addExerciseToSession_def sharedAfterEdit_def
      addSetInData_def addSet_def sameExercise_def ex_logged_def editSession_def
      ex_idle_state_def state_defs ex_defs finish_defs)

lemma updateActiveSession_rearms:
  assumes "activeSession st \<noteq> None" and "now \<noteq> 0" and "0 < ds_sessionTimeout (settings st)"
  shows "sessionTimeoutEffect now (updateActiveSession now u st)
         = FinishAfter (ds_sessionTimeout (settings st) * 60 * 1000)"
  using assms
  by (auto simp: sessionTimeoutEffect_def updateActiveSession_def truthy_number_def Let_def)

lemma editSession_disables_timer:
  assumes "find (\<lambda>s. ws_id s = sessionId) (sessions (appData st)) = Some s"
  shows "sessionTimeoutEffect now' (editSession now sessionId st) = NoTimer"
  using assms by (simp add: editSession_def sessionTimeoutEffect_def truthy_number_def Let_def)







section \<open>The claims\<close>

text \<open>
  C1. For two datasets with unique ids within each list, each list of
  \<open>mergeData A B\<close> contains every id of the corresponding lists of \<open>A\<close> and
  \<open>B\<close> exactly once: the ids of the merged list are pairwise distinct, and they are
  the ids of \<open>A\<close>'s list together with those of \<open>B\<close>'s.
\<close>

theorem mergeData_ids_exactly_once:
  assumes "unique_ids A" and "unique_ids B"
  shows "distinct (map ws_id (sessions (mergeData A B)))
       \<and> set (map ws_id (sessions (mergeData A B)))
           = set (map ws_id (sessions A)) \<union> set (map ws_id (sessions B))
       \<and> distinct (map hs_id (healthStats (mergeData A B)))
       \<and> set (map hs_id (healthStats (mergeData A B)))
           = set (map hs_id (healthStats A)) \<union> set (map hs_id (healthStats B))
       \<and> distinct (map wr_id (routines (mergeData A B)))
       \<and> set (map wr_id (routines (mergeData A B)))
           = set (map wr_id (routines A)) \<union> set (map wr_id (routines B))"
  by (simp add: mergeData_def distinct_ids_mergeByKey ids_mergeByKey)

text \<open>The theorem at the two example datasets.\<close>

theorem mergeData_ids_exactly_once_witness:
  "unique_ids ex_local \<and> unique_ids ex_remote
   \<and> distinct (map ws_id (sessions (mergeData ex_local ex_remote)))
   \<and> set (map ws_id (sessions (mergeData ex_local ex_remote))) = {''100'', ''200''}
   \<and> distinct (map hs_id (healthStats (mergeData ex_local ex_remote)))
   \<and> set (map hs_id (healthStats (mergeData ex_local ex_remote))) = {''7''}
   \<and> distinct (map wr_id (routines (mergeData ex_local ex_remote)))
   \<and> set (map wr_id (routines (mergeData ex_local ex_remote))) = {''r1''}"
proof -
  have a: "unique_ids ex_local" by (simp add: unique_ids_def ex_defs)
  have b: "unique_ids ex_remote" by (simp add: unique_ids_def ex_defs)
  have ids: "set (map ws_id (sessions ex_local)) \<union> set (map ws_id (sessions ex_remote)) = {''100'', ''200''}"
    "set (map hs_id (healthStats ex_local)) \<union> set (map hs_id (healthStats ex_remote)) = {''7''}"
    "set (map wr_id (routines ex_local)) \<union> set (map wr_id (routines ex_remote)) = {''r1''}"
    by (auto simp add: ex_defs)
  show ?thesis
    using mergeData_ids_exactly_once [OF a b] a b unfolding ids by blast
qed

text \<open>
  C2. Remote wins on every id collision: for an id \<open>k\<close> present in the same list
  of the local dataset \<open>A\<close> and of the remote dataset \<open>B\<close>, the merged list holds
  exactly one record with id \<open>k\<close>, and it is \<open>B\<close>'s record with that id
  (\<open>last (filter \<dots>)\<close>: the only record of \<open>B\<close> with id \<open>k\<close> when the ids of
  \<open>B\<close> are unique, the last one otherwise).
\<close>

theorem mergeData_remote_wins:
  "(k \<in> ws_id ` set (sessions A) \<and> k \<in> ws_id ` set (sessions B) \<longrightarrow>
      filter (\<lambda>m. ws_id m = k) (sessions (mergeData A B))
      = [last (filter (\<lambda>r. ws_id r = k) (sessions B))])
   \<and> (k \<in> hs_id ` set (healthStats A) \<and> k \<in> hs_id ` set (healthStats B) \<longrightarrow>
      filter (\<lambda>m. hs_id m = k) (healthStats (mergeData A B))
      = [last (filter (\<lambda>r. hs_id r = k) (healthStats B))])
   \<and> (k \<in> wr_id ` set (routines A) \<and> k \<in> wr_id ` set (routines B) \<longrightarrow>
      filter (\<lambda>m. wr_id m = k) (routines (mergeData A B))
      = [last (filter (\<lambda>r. wr_id r = k) (routines B))])"
  by (simp add: mergeData_def mergeByKey_remote_wins)

text \<open>The theorem at the example datasets, one colliding id in each list.\<close>

theorem mergeData_remote_wins_witness:
  "''100'' \<in> ws_id ` set (sessions ex_local) \<and> ''100'' \<in> ws_id ` set (sessions ex_remote)
   \<and> filter (\<lambda>m. ws_id m = ''100'') (sessions (mergeData ex_local ex_remote))
       = [ex_session ''100'' 1000 ''remote'']
   \<and> ''7'' \<in> hs_id ` set (healthStats ex_local) \<and> ''7'' \<in> hs_id ` set (healthStats ex_remote)
   \<and> filter (\<lambda>m. hs_id m = ''7'') (healthStats (mergeData ex_local ex_remote))
       = [ex_health ''7'' 500 81]
   \<and> ''r1'' \<in> wr_id ` set (routines ex_local) \<and> ''r1'' \<in> wr_id ` set (routines ex_remote)
   \<and> filter (\<lambda>m. wr_id m = ''r1'') (routines (mergeData ex_local ex_remote))
       = [ex_routine ''r1'' ''Upper body'']"
proof -
  have s: "''100'' \<in> ws_id ` set (sessions ex_local) \<and> ''100'' \<in> ws_id ` set (sessions ex_remote)"
    and h: "''7'' \<in> hs_id ` set (healthStats ex_local) \<and> ''7'' \<in> hs_id ` set (healthStats ex_remote)"
    and r: "''r1'' \<in> wr_id ` set (routines ex_local) \<and> ''r1'' \<in> wr_id ` set (routines ex_remote)"
    by (simp_all add: ex_defs)
  have l: "last (filter (\<lambda>r. ws_id r = ''100'') (sessions ex_remote)) = ex_session ''100'' 1000 ''remote''"
    "last (filter (\<lambda>r. hs_id r = ''7'') (healthStats ex_remote)) = ex_health ''7'' 500 81"
    "last (filter (\<lambda>r. wr_id r = ''r1'') (routines ex_remote)) = ex_routine ''r1'' ''Upper body''"
    by (simp_all add: ex_defs)
  show ?thesis
    using mergeData_remote_wins [of "''100''" ex_local ex_remote]
      mergeData_remote_wins [of "''7''" ex_local ex_remote]
      mergeData_remote_wins [of "''r1''" ex_local ex_remote] s h r
    unfolding l by blast
qed

text \<open>
  C3, as stated, fails: \<open>mergeData a b\<close> and \<open>mergeData b a\<close> need not hold the
  same set of records. The example datasets share session 100 with different notes;
  each order of merging keeps the notes of its second argument.
\<close>

theorem mergeData_not_commutative:
  "set (sessions (mergeData ex_local ex_remote)) \<noteq> set (sessions (mergeData ex_remote ex_local))"
proof
  assume eq: "set (sessions (mergeData ex_local ex_remote))
              = set (sessions (mergeData ex_remote ex_local))"
  have "ex_session ''100'' 1000 ''remote'' \<in> set (sessions (mergeData ex_local ex_remote))"
    by (simp add: ex_defs merge_defs)
  then have "ex_session ''100'' 1000 ''remote'' \<in> set (sessions (mergeData ex_remote ex_local))"
    by (simp only: eq)
  then show False
    by (simp add: ex_defs merge_defs)
qed

text \<open>
  C3, amended. \<open>mergeData a b\<close> and \<open>mergeData b a\<close> always hold the same set of
  ids in each list. When the two datasets agree on the content of every id they
  share, the two results hold the same records, each once, in a possibly different
  order.
\<close>

theorem mergeData_commutes_on_agreement:
  "ws_id ` set (sessions (mergeData a b)) = ws_id ` set (sessions (mergeData b a))
   \<and> hs_id ` set (healthStats (mergeData a b)) = hs_id ` set (healthStats (mergeData b a))
   \<and> wr_id ` set (routines (mergeData a b)) = wr_id ` set (routines (mergeData b a))
   \<and> (agree_on_shared_ids a b \<longrightarrow>
        mset (sessions (mergeData a b)) = mset (sessions (mergeData b a))
        \<and> mset (healthStats (mergeData a b)) = mset (healthStats (mergeData b a))
        \<and> mset (routines (mergeData a b)) = mset (routines (mergeData b a)))"
proof -
  have "mset (sessions (mergeData a b)) = mset (sessions (mergeData b a))
        \<and> mset (healthStats (mergeData a b)) = mset (healthStats (mergeData b a))
        \<and> mset (routines (mergeData a b)) = mset (routines (mergeData b a))"
    if "agree_on_shared_ids a b"
  proof -
    from that have
      s: "\<forall>x\<in>set (sessions a). \<forall>y\<in>set (sessions b). ws_id x = ws_id y \<longrightarrow> x = y" and
      h: "\<forall>x\<in>set (healthStats a). \<forall>y\<in>set (healthStats b). hs_id x = hs_id y \<longrightarrow> x = y" and
      r: "\<forall>x\<in>set (routines a). \<forall>y\<in>set (routines b). wr_id x = wr_id y \<longrightarrow> x = y"
      by (simp_all add: agree_on_shared_ids_def)
    show ?thesis
      by (simp add: mergeData_def mset_mergeByKey_comm [OF s] mset_mergeByKey_comm [OF h]
          mset_mergeByKey_comm [OF r])
  qed
  then show ?thesis
    by (simp add: mergeData_def ids_mergeByKey_comm)
qed

text \<open>The amended theorem at two datasets that agree on their shared ids.\<close>

theorem mergeData_commutes_on_agreement_witness:
  "agree_on_shared_ids ex_local ex_other
   \<and> mset (sessions (mergeData ex_local ex_other)) = mset (sessions (mergeData ex_other ex_local))
   \<and> mset (healthStats (mergeData ex_local ex_other)) = mset (healthStats (mergeData ex_other ex_local))
   \<and> mset (routines (mergeData ex_local ex_other)) = mset (routines (mergeData ex_other ex_local))"
proof -
  have a: "agree_on_shared_ids ex_local ex_other"
    by (simp add: agree_on_shared_ids_def ex_defs ex_other_def)
  show ?thesis
    using mergeData_commutes_on_agreement [of ex_local ex_other] a by blast
qed

text \<open>
  C4. \<open>mergeData\<close> is idempotent. For every dataset \<open>A\<close>, each list of
  \<open>mergeData A A\<close> holds the same ids as the list of \<open>A\<close>, each with the record
  that \<open>A\<close> holds for it (\<open>last_with\<close>: the map from an id to the record of the
  list with that id, the last one if there are several). When the ids of \<open>A\<close> are
  unique, each list of \<open>mergeData A A\<close> holds exactly the records of the list of
  \<open>A\<close>, each once; the merge sorts by timestamp, so the lists themselves are equal
  when those of \<open>A\<close> are in timestamp-descending order, as every result of a merge
  is.
\<close>

theorem mergeData_idempotent:
  "last_with ws_id (sessions (mergeData A A)) = last_with ws_id (sessions A)
   \<and> last_with hs_id (healthStats (mergeData A A)) = last_with hs_id (healthStats A)
   \<and> last_with wr_id (routines (mergeData A A)) = last_with wr_id (routines A)
   \<and> (unique_ids A \<longrightarrow>
        mset (sessions (mergeData A A)) = mset (sessions A)
        \<and> mset (healthStats (mergeData A A)) = mset (healthStats A)
        \<and> mset (routines (mergeData A A)) = mset (routines A)
        \<and> (sorted (map (\<lambda>s. - ws_timestamp s) (sessions A))
            \<and> sorted (map (\<lambda>h. - hs_timestamp h) (healthStats A)) \<longrightarrow> mergeData A A = A))"
proof -
  have maps: "last_with ws_id (sessions (mergeData A A)) = last_with ws_id (sessions A)"
    "last_with hs_id (healthStats (mergeData A A)) = last_with hs_id (healthStats A)"
    "last_with wr_id (routines (mergeData A A)) = last_with wr_id (routines A)"
    by (rule ext, simp add: mergeData_def last_with_mergeByKey last_with_twice)+
  have rest: "mset (sessions (mergeData A A)) = mset (sessions A)
        \<and> mset (healthStats (mergeData A A)) = mset (healthStats A)
        \<and> mset (routines (mergeData A A)) = mset (routines A)
        \<and> (sorted (map (\<lambda>s. - ws_timestamp s) (sessions A))
            \<and> sorted (map (\<lambda>h. - hs_timestamp h) (healthStats A)) \<longrightarrow> mergeData A A = A)"
    if u: "unique_ids A"
  proof -
    have "sorted (map (\<lambda>r. - (\<lambda>_. 0 :: int) r) (routines A))"
      by (simp add: sorted_const)
    with u have "mergeByKey wr_id (\<lambda>_. 0) (routines A) (routines A) = routines A"
      unfolding unique_ids_def by (intro mergeByKey_same_sorted) simp_all
    then have "routines (mergeData A A) = routines A"
      by (simp add: mergeData_def)
    moreover have "sessions (mergeData A A) = sessions A"
      if "sorted (map (\<lambda>s. - ws_timestamp s) (sessions A))"
      using u that by (simp add: mergeData_def unique_ids_def mergeByKey_same_sorted)
    moreover have "healthStats (mergeData A A) = healthStats A"
      if "sorted (map (\<lambda>h. - hs_timestamp h) (healthStats A))"
      using u that by (simp add: mergeData_def unique_ids_def mergeByKey_same_sorted)
    moreover have "mset (sessions (mergeData A A)) = mset (sessions A)"
      "mset (healthStats (mergeData A A)) = mset (healthStats A)"
      "mset (routines (mergeData A A)) = mset (routines A)"
      using u by (simp_all add: mergeData_def unique_ids_def mset_mergeByKey_same)
    ultimately show ?thesis by simp
  qed
  from maps rest show ?thesis by blast
qed

text \<open>The theorem at an example dataset.\<close>

theorem mergeData_idempotent_witness:
  "unique_ids ex_other
   \<and> sorted (map (\<lambda>s. - ws_timestamp s) (sessions ex_other))
   \<and> sorted (map (\<lambda>h. - hs_timestamp h) (healthStats ex_other))
   \<and> mset (sessions (mergeData ex_other ex_other)) = mset (sessions ex_other)
   \<and> mset (healthStats (mergeData ex_other ex_other)) = mset (healthStats ex_other)
   \<and> mset (routines (mergeData ex_other ex_other)) = mset (routines ex_other)
   \<and> mergeData ex_other ex_other = ex_other"
proof -
  have u: "unique_ids ex_other"
    by (simp add: unique_ids_def ex_defs ex_other_def)
  have s: "sorted (map (\<lambda>s. - ws_timestamp s) (sessions ex_other))"
    "sorted (map (\<lambda>h. - hs_timestamp h) (healthStats ex_other))"
    by (simp_all add: ex_defs ex_other_def)
  show ?thesis
    using mergeData_idempotent [of ex_other] u s by blast
qed




text \<open>
  C6, as stated, fails. The session of \<open>ex_future_state\<close> starts two minutes
  after the clock reading at commit, and the list holds a session whose id is that
  clock reading: the committed session has duration -2 and shares its id.
\<close>

theorem finishSession_negative_duration_reused_id:
  "activeSession ex_future_state = Some (ex_new_session 1700000120000 [ex_pushups])
   \<and> map (\<lambda>s. (ws_id s, ws_durationMinutes s))
         (sessions (currentData (finishSession 1700000000000 ex_future_state)))
       = [(''1700000000000'', Some (- 2)), (''1700000000000'', Some 30)]"
  by (simp add: state_defs ex_defs finish_defs)

text \<open>
  C6, amended. Committing a new session (sentinel id) with at least one exercise puts
  into the list a session with \<open>durationMinutes = Math.round((now - start) / 60000)\<close>,
  which is at least 0 exactly when the start is no more than 30 seconds after
  \<open>now\<close>, and with the id \<open>toString now\<close>, which is never the sentinel. If no
  session of the list had that id before, the committed session is the only one
  with it afterwards.
\<close>

theorem finishSession_stamps_new_session:
  assumes "activeSession st = Some a" and "ws_id a = ''active''"
    and "ws_exercises a \<noteq> []" and "has_dataset st"
  shows "finalSessionWithId now a \<in> set (sessions (currentData (finishSession now st)))
       \<and> ws_durationMinutes (finalSessionWithId now a)
           = Some (Math_round (of_int (now - ws_timestamp a) / 60000))
       \<and> (0 \<le> Math_round (of_int (now - ws_timestamp a) / 60000)
            \<longleftrightarrow> ws_timestamp a \<le> now + 30000)
       \<and> ws_id (finalSessionWithId now a) = toString now
       \<and> ws_id (finalSessionWithId now a) \<noteq> ''active''
       \<and> (toString now \<notin> ws_id ` set (sessions (currentData st)) \<longrightarrow>
            filter (\<lambda>s. ws_id s = toString now) (sessions (currentData (finishSession now st)))
            = [finalSessionWithId now a])"
proof -
  let ?fs = "finalSession now a" and ?c = "finalSessionWithId now a"
  have cd: "currentData (finishSession now st) = updateState ?fs ?c (currentData st)"
    using assms(1,3,4) by (rule currentData_finishSession)
  have id: "ws_id ?c = toString now"
    using assms(2) by (simp add: finalSessionWithId_def newSessionId_def finalSession_def)
  have dur: "ws_durationMinutes ?c = Some (Math_round (of_int (now - ws_timestamp a) / 60000))"
    using assms(2) by (simp add: finalSessionWithId_def finalSession_def)
  have "?c \<in> set (sessions (updateState ?fs ?c (currentData st)))"
    by (simp add: updateState_def)
  moreover have "(0 \<le> Math_round (of_int (now - ws_timestamp a) / 60000))
                 \<longleftrightarrow> ws_timestamp a \<le> now + 30000"
    unfolding Math_round_minutes by (auto simp: pos_imp_zdiv_nonneg_iff)
  moreover have "filter (\<lambda>s. ws_id s = toString now) (sessions (updateState ?fs ?c (currentData st)))
                 = [?c]"
    if "toString now \<notin> ws_id ` set (sessions (currentData st))"
    using updateState_fresh_once [of ?c "currentData st" ?fs] that by (simp add: id)
  ultimately show ?thesis
    unfolding cd using id dur toString_not_active [of now] by simp
qed

text \<open>The amended theorem at a session started 1000 seconds before the commit.\<close>

theorem finishSession_stamps_new_session_witness:
  "activeSession ex_logging_state = Some (ex_new_session 1699999000000 [ex_pushups])
   \<and> ws_id (ex_new_session 1699999000000 [ex_pushups]) = ''active''
   \<and> ws_exercises (ex_new_session 1699999000000 [ex_pushups]) \<noteq> []
   \<and> has_dataset ex_logging_state
   \<and> toString 1700000000000 \<notin> ws_id ` set (sessions (currentData ex_logging_state))
   \<and> ws_durationMinutes (finalSessionWithId 1700000000000 (ex_new_session 1699999000000 [ex_pushups]))
       = Some 17
   \<and> ws_id (finalSessionWithId 1700000000000 (ex_new_session 1699999000000 [ex_pushups]))
       = ''1700000000000''
   \<and> filter (\<lambda>s. ws_id s = toString 1700000000000)
        (sessions (currentData (finishSession 1700000000000 ex_logging_state)))
       = [finalSessionWithId 1700000000000 (ex_new_session 1699999000000 [ex_pushups])]"
proof -
  let ?a = "ex_new_session 1699999000000 [ex_pushups]"
  have a: "activeSession ex_logging_state = Some ?a"
    and i: "ws_id ?a = ''active''"
    and e: "ws_exercises ?a \<noteq> []"
    and h: "has_dataset ex_logging_state"
    by (simp_all add: state_defs has_dataset_def truthy_string_simps)
  have f: "toString 1700000000000 \<notin> ws_id ` set (sessions (currentData ex_logging_state))"
    by (simp add: state_defs ex_defs finish_defs)
  have m: "Math_round (of_int (1700000000000 - ws_timestamp ?a) / 60000) = 17"
    by (simp only: Math_round_minutes) (simp add: state_defs)
  have t: "toString 1700000000000 = ''1700000000000''"
    by (simp add: finish_defs)
  show ?thesis
    using finishSession_stamps_new_session [OF a i e h, of 1700000000000] a i e h f m t
    by simp
qed

text \<open>
  C7. In an active session, two calls of \<^verbatim>\<open>addExerciseToSession\<close> with the same
  name, weight, unit and reps are to leave one row, with one set more for each call,
  and not two rows. The code does so where reps and weight are numbers
  (\<open>addExerciseToSession_twice_new_row\<close>, \<open>addExerciseToSession_twice_existing_row\<close>),
  and does not where one of them is \<^verbatim>\<open>NaN\<close>, which the logger passes for a Reps
  or Weight field left empty: \<^verbatim>\<open>NaN === NaN\<close> is false, so the exercise matches
  no row, not even the row that the call before added. In the example push-ups with
  empty reps are logged twice into a session with no rows, and the session has two
  rows of one set each, not one row of two sets.
\<close>

theorem addExerciseToSession_NaN_two_rows:
  "activeSession ex_empty_state = Some (ex_new_session 1699999000000 [])
   \<and> map_option (\<lambda>s. map (\<lambda>row. (ex_id row, ex_sets row)) (ws_exercises s))
        (activeSession
          (addExerciseToSession 1700000002000 (ex_logged NaN) (\<lambda>i. [])
            (addExerciseToSession 1700000001000 (ex_logged NaN) (\<lambda>i. []) ex_empty_state)))
       = Some [(''1700000001000'', 1), (''1700000002000'', 1)]"
  by (simp add: addExerciseToSession_def Let_def state_defs ex_logged_def sameExercise_def
      toString_def natToString.simps digitChar_def)

text \<open>
  C8. Committing an active session with no exercise changes neither the profiles nor
  the in-memory dataset: the only change to the state is that no session is active
  (and none is being edited) afterwards.
\<close>

theorem finishSession_empty_is_noop:
  assumes "activeSession st = Some a" and "ws_exercises a = []"
  shows "finishSession now st = st\<lparr>activeSession := None, editingSessionId := None\<rparr>
       \<and> profiles (finishSession now st) = profiles st
       \<and> appData (finishSession now st) = appData st
       \<and> currentData (finishSession now st) = currentData st
       \<and> activeSession (finishSession now st) = None"
  using assms by (simp add: finishSession_def currentData_def activeProfile_def)

text \<open>The theorem at a session that was started empty.\<close>

theorem finishSession_empty_is_noop_witness:
  "activeSession ex_empty_state = Some (ex_new_session 1699999000000 [])
   \<and> ws_exercises (ex_new_session 1699999000000 []) = []
   \<and> appData (finishSession 1700000000000 ex_empty_state) = appData ex_empty_state
   \<and> currentData (finishSession 1700000000000 ex_empty_state) = currentData ex_empty_state
   \<and> activeSession (finishSession 1700000000000 ex_empty_state) = None"
proof -
  have a: "activeSession ex_empty_state = Some (ex_new_session 1699999000000 [])"
    by (simp add: state_defs)
  have e: "ws_exercises (ex_new_session 1699999000000 []) = []"
    by (simp add: state_defs)
  show ?thesis
    using finishSession_empty_is_noop [OF a e, of 1700000000000] a e by blast
qed

text \<open>
  C9 does not hold of the code. \<^verbatim>\<open>editSession\<close> clears the last activity time,
  and the timeout effect sets no timer then; but \<^verbatim>\<open>updateActiveSession\<close> sets
  the last activity time again, whether or not a session is being edited. In the
  example a cloud user edits session 100 and changes its notes once: the effect sets
  a timer of 60 minutes, and when it fires the edited session is committed.
\<close>

theorem editing_session_auto_commits:
  "activeSession (editSession 1700000000000 ''100'' ex_idle_state)
     = Some (ex_session ''100'' 1000 ''remote'')
   \<and> editingSessionId (editSession 1700000000000 ''100'' ex_idle_state) = Some ''100''
   \<and> sessionTimeoutEffect 1700000000000 (editSession 1700000000000 ''100'' ex_idle_state)
       = NoTimer
   \<and> editingSessionId
        (updateActiveSession 1700000001000 (noUpdate\<lparr>su_notes := Some ''edited''\<rparr>)
          (editSession 1700000000000 ''100'' ex_idle_state)) = Some ''100''
   \<and> sessionTimeoutEffect 1700000001000
        (updateActiveSession 1700000001000 (noUpdate\<lparr>su_notes := Some ''edited''\<rparr>)
          (editSession 1700000000000 ''100'' ex_idle_state))
       = FinishAfter 3600000
   \<and> activeSession
        (afterInactivity 1700000001000
          (updateActiveSession 1700000001000 (noUpdate\<lparr>su_notes := Some ''edited''\<rparr>)
            (editSession 1700000000000 ''100'' ex_idle_state))) = None
   \<and> sessions (appData
        (afterInactivity 1700000001000
          (updateActiveSession 1700000001000 (noUpdate\<lparr>su_notes := Some ''edited''\<rparr>)
            (editSession 1700000000000 ''100'' ex_idle_state))))
       = [ex_session ''200'' 2000 ''second'', ex_session ''100'' 1000 ''edited'']"
  by (simp add: editSession_def updateActiveSession_def spreadUpdate_def noUpdate_def
      sessionTimeoutEffect_def afterInactivity_def truthy_number_def ex_idle_state_def
      state_defs ex_defs finish_defs)



end
